theory Spec2Isabelle
  imports Complex_Main "HOL-Library.Word"
begin

section \<open>The standard-input adapter of \<open>stdin2testu01.c\<close>\<close>

text \<open>
  The program adapts the bytes arriving on standard input to the generator interface of
  the TestU01 library and runs one of its three batteries on them. This theory embeds the
  one source file, \<^verbatim>\<open>src/userguide/c/rng/stdin2testu01.c\<close>, function by function.

  Two properties of the platform decide what the program reads and are parameters of the
  model:
  \<^item> the width of \<^verbatim>\<open>unsigned long\<close>, the type variable \<open>'l\<close> of the reader state
    (\<open>32\<close> on ILP32 and LLP64 platforms, \<open>64\<close> on LP64 ones);
  \<^item> the byte order in which an object is laid out in memory, a value of type \<open>endian\<close>.
\<close>

subsection \<open>Constants\<close>

definition TU_S :: string where "TU_S = ''SmallCrush''"
definition TU_C :: string where "TU_C = ''Crush''"
definition TU_B :: string where "TU_B = ''BigCrush''"
definition BUFFER_LENGTH :: nat where "BUFFER_LENGTH = 256"

subsection \<open>Bytes, byte order and the input stream\<close>

type_synonym byte = "8 word"
type_synonym uint32_t = "32 word"

datatype endian = LittleEndian | BigEndian

text \<open>The number denoted by a run of bytes, least significant byte first.\<close>

fun le_value :: "byte list \<Rightarrow> nat" where
  "le_value [] = 0"
| "le_value (b # bs) = unat b + 256 * le_value bs"

text \<open>
  \<open>load e bs\<close> is the value of an unsigned integer object whose storage holds the bytes
  \<open>bs\<close>, in address order, on a platform of byte order \<open>e\<close>.
\<close>

definition load :: "endian \<Rightarrow> byte list \<Rightarrow> 'a::len word" where
  "load e bs = word_of_nat (le_value (case e of LittleEndian \<Rightarrow> bs | BigEndian \<Rightarrow> rev bs))"

text \<open>
  The other direction: \<open>store e sz x\<close> is the storage, \<open>sz\<close> bytes in address order, of an
  unsigned integer object that holds \<open>x\<close>.
\<close>

fun le_bytes :: "nat \<Rightarrow> nat \<Rightarrow> byte list" where
  "le_bytes 0 v = []"
| "le_bytes (Suc k) v = of_nat (v mod 256) # le_bytes k (v div 256)"

definition store :: "endian \<Rightarrow> nat \<Rightarrow> 'a::len word \<Rightarrow> byte list" where
  "store e sz x =
     (case e of
        LittleEndian \<Rightarrow> le_bytes sz (unat x)
      | BigEndian \<Rightarrow> rev (le_bytes sz (unat x)))"

text \<open>\<open>sizeof_ulong\<close> is \<^verbatim>\<open>sizeof(unsigned long)\<close>, in bytes.\<close>

definition sizeof_ulong :: "'l::len itself \<Rightarrow> nat" where
  "sizeof_ulong _ = LENGTH('l) div 8"

text \<open>
  A \<^verbatim>\<open>FILE\<close> opened for reading: the bytes not yet read (all that will arrive
  before end of file), whether the stream is in binary mode, and the number of
  \<^verbatim>\<open>fread\<close> calls made on it so far. The counter is an observation of the calls,
  the program never reads it.
\<close>

record FILE =
  bytes :: "byte list"
  binary :: bool
  freads :: nat

text \<open>The first \<open>n\<close> consecutive blocks of \<open>sz\<close> elements of a list.\<close>

fun chunks :: "nat \<Rightarrow> nat \<Rightarrow> 'a list \<Rightarrow> 'a list list" where
  "chunks sz 0 bs = []"
| "chunks sz (Suc n) bs = take sz bs # chunks sz n (drop sz bs)"

text \<open>
  \<^verbatim>\<open>fread(ptr, sz, nmemb, fp)\<close> into an array of unsigned integers whose contents
  before the call are \<open>ptr\<close>. It requests \<open>sz * nmemb\<close> bytes and copies the bytes that
  arrive (\<open>got\<close>) to the start of the array, in order; they are consumed. So the \<open>n\<close>
  complete elements that arrive replace the first \<open>n\<close> slots; when the stream ends inside
  an element, the bytes of it that arrived (\<open>rest\<close>) replace the first bytes of slot \<open>n\<close>,
  whose other bytes stay; the slots after that keep what they held. The program ignores
  the count that \<^verbatim>\<open>fread\<close> returns, so the model omits it.
\<close>

definition fread :: "endian \<Rightarrow> 'a::len word list \<Rightarrow> nat \<Rightarrow> nat \<Rightarrow> FILE \<Rightarrow> 'a word list \<times> FILE" where
  "fread e ptr sz nmemb fp =
     (let got = take (sz * nmemb) (bytes fp);
          n = (if sz = 0 then 0 else length got div sz);
          elems = map (load e) (chunks sz n got);
          rest = drop (n * sz) got;
          stored = elems @ drop n ptr
      in ((if rest = [] then stored
           else stored[n := load e (rest @ drop (length rest) (store e sz (ptr ! n)))]),
          fp\<lparr>bytes := drop (sz * nmemb) (bytes fp), freads := Suc (freads fp)\<rparr>))"

text \<open>
  \<^verbatim>\<open>freopen(NULL, "rb", fp)\<close> changes the mode of the stream to binary. The
  program ignores its result; the model takes the call to succeed.
\<close>

definition freopen_rb :: "FILE \<Rightarrow> FILE" where
  "freopen_rb fp = fp\<lparr>binary := True\<rparr>"

subsection \<open>The reader state and its accessors\<close>

text \<open>
  \<^verbatim>\<open>StdinReader_state\<close>: an array of \<^verbatim>\<open>BUFFER_LENGTH\<close> values of type
  \<^verbatim>\<open>unsigned long\<close> and a \<^verbatim>\<open>uint32_t\<close> index. The array is a list; the C type
  fixes its length to \<^verbatim>\<open>BUFFER_LENGTH\<close>.
\<close>

record (overloaded) ('l::len) StdinReader_state =
  buffer :: "'l word list"
  index :: uint32_t

text \<open>
  \<^verbatim>\<open>nextInt(par, sta)\<close>, as a function of the object \<open>sta\<close> points to and of standard
  input; it returns the value, the updated object and the updated stream. The parameter
  \<^verbatim>\<open>par\<close> is not used by the source and is left out. The value read from the buffer is
  narrowed to \<^verbatim>\<open>uint32_t\<close> (the local \<^verbatim>\<open>random\<close>) and widened again to the return
  type \<^verbatim>\<open>unsigned long\<close>.
\<close>

definition nextInt ::
  "endian \<Rightarrow> ('l::len) StdinReader_state \<Rightarrow> FILE \<Rightarrow> 'l word \<times> 'l StdinReader_state \<times> FILE" where
  "nextInt e sta stdin =
     (let (state, stdin') =
            (if BUFFER_LENGTH \<le> unat (index sta)
             then (let (buf, fp) = fread e (buffer sta) (sizeof_ulong TYPE('l)) BUFFER_LENGTH stdin
                   in (sta\<lparr>buffer := buf, index := 0\<rparr>, fp))
             else (sta, stdin));
          random = (ucast (buffer state ! unat (index state)) :: uint32_t);
          state = state\<lparr>index := index state + 1\<rparr>
      in (ucast random, state, stdin'))"

text \<open>
  \<^verbatim>\<open>nextDouble(par, sta)\<close>. The result of \<^verbatim>\<open>nextInt\<close> is below \<open>2 ^ 32\<close>, so its
  conversion to \<^verbatim>\<open>double\<close> is exact (a binary64 significand has 53 bits), and the division
  by the power of two \<open>4294967296.0\<close> only changes the exponent: the \<^verbatim>\<open>double\<close> returned
  is the real quotient, which is how the model gives it.
\<close>

definition nextDouble ::
  "endian \<Rightarrow> ('l::len) StdinReader_state \<Rightarrow> FILE \<Rightarrow> real \<times> 'l StdinReader_state \<times> FILE" where
  "nextDouble e sta stdin =
     (let (r, state, stdin') = nextInt e sta stdin
      in (real (unat r) / 4294967296, state, stdin'))"

text \<open>
  \<^verbatim>\<open>printf\<close> with a format whose only conversions are \<^verbatim>\<open>%s\<close>: each one is replaced by
  the next argument, and the text is appended to standard output.
\<close>

fun format :: "string \<Rightarrow> string list \<Rightarrow> string" where
  "format [] args = []"
| "format [c] args = [c]"
| "format (c # d # cs) args =
     (if c = CHR ''%'' \<and> d = CHR ''s''
      then (case args of [] \<Rightarrow> format cs [] | a # as \<Rightarrow> a @ format cs as)
      else c # format (d # cs) args)"

definition printf :: "string \<Rightarrow> string list \<Rightarrow> string \<Rightarrow> string" where
  "printf fmt args stdout = stdout @ format fmt args"

text \<open>
  \<^verbatim>\<open>dummy(sta)\<close>, the description callback, as a function of the object \<open>sta\<close> points to
  and of standard output.
\<close>

definition dummy :: "('l::len) StdinReader_state \<Rightarrow> string \<Rightarrow> 'l StdinReader_state \<times> string" where
  "dummy sta stdout = (sta, printf ''N/A'' [] stdout)"

text \<open>
  The consumer of the adapter calls \<^verbatim>\<open>nextInt\<close> again and again on the same state.
  \<open>nextInts e n\<close> is the sequence of the first \<open>n\<close> such calls: it returns the values in
  the order of the calls, and the state and the stream after the last one.
\<close>

fun nextInts ::
  "endian \<Rightarrow> nat \<Rightarrow> ('l::len) StdinReader_state \<Rightarrow> FILE \<Rightarrow> 'l word list \<times> 'l StdinReader_state \<times> FILE" where
  "nextInts e 0 sta stdin = ([], sta, stdin)"
| "nextInts e (Suc n) sta stdin =
     (let (x, sta1, stdin1) = nextInt e sta stdin;
          (xs, sta2, stdin2) = nextInts e n sta1 stdin1
      in (x # xs, sta2, stdin2))"

text \<open>
  What the narrowing to \<^verbatim>\<open>uint32_t\<close> and the widening back to \<^verbatim>\<open>unsigned long\<close>
  do to a value, and the sequence of 32-bit words that a run of bytes holds: its complete
  groups of four bytes, in order, each read in the byte order \<open>e\<close>.
\<close>

definition low32 :: "'l::len word \<Rightarrow> 'l word" where
  "low32 x = ucast (ucast x :: uint32_t)"

definition words32 :: "endian \<Rightarrow> byte list \<Rightarrow> uint32_t list" where
  "words32 e bs = map (load e) (chunks 4 (length bs div 4) bs)"

subsection \<open>The process: storage, creation, destruction and \<open>main\<close>\<close>

text \<open>
  \<^verbatim>\<open>strcmp\<close> on strings without the terminating NUL: zero when they are equal,
  otherwise the sign of the difference of the first pair of bytes that differ.
\<close>

fun strcmp :: "string \<Rightarrow> string \<Rightarrow> int" where
  "strcmp [] [] = 0"
| "strcmp [] (b # bs) = - 1"
| "strcmp (a # as) [] = 1"
| "strcmp (a # as) (b # bs) =
     (if a = b then strcmp as bs
      else if (of_char a :: nat) < of_char b then - 1 else 1)"

text \<open>
  \<^verbatim>\<open>strncpy(dst, src, n)\<close> on the contents of \<open>dst\<close>: the first \<open>n\<close> bytes become those
  of \<open>src\<close>, padded with NUL when \<open>src\<close> is shorter; the rest of \<open>dst\<close> is kept.
\<close>

definition strncpy :: "string \<Rightarrow> string \<Rightarrow> nat \<Rightarrow> string" where
  "strncpy dst src n = take n (src @ replicate n (CHR 0x00)) @ drop n dst"

text \<open>
  The generator object of TestU01, \<^verbatim>\<open>unif01_Gen\<close>: three data pointers (\<open>None\<close> is
  \<^verbatim>\<open>NULL\<close>) and three function pointers, which here can only point to the three
  callbacks of this file.
\<close>

type_synonym addr = nat

datatype callback = Fn_dummy | Fn_nextDouble | Fn_nextInt

record unif01_Gen =
  state :: "addr option"
  param :: "addr option"
  name :: "addr option"
  GetU01 :: callback
  GetBits :: callback
  Write :: callback

text \<open>
  The dynamic storage is a map from addresses to the blocks allocated at them: a reader
  state, a generator or an array of characters. \<open>brk\<close> is the next address that the
  allocator hands out; it never hands out an address twice. The rest of the process is
  standard input and the text written to standard output.
\<close>

datatype 's block =
    StateBlock 's
  | GenBlock unif01_Gen
  | CharBlock string

record (overloaded) ('l::len) world =
  heap :: "addr \<rightharpoonup> 'l StdinReader_state block"
  brk :: addr
  stdin :: FILE
  stdout :: string

text \<open>
  \<^verbatim>\<open>util_Malloc\<close>, \<^verbatim>\<open>util_Calloc\<close> and \<^verbatim>\<open>util_Free\<close> belong to TestU01.
  \<open>util_Malloc init\<close> allocates a block whose contents, indeterminate in C, are \<open>init\<close>;
  \<open>util_Calloc n\<close> allocates \<open>n\<close> zero bytes; both are taken to succeed.
  \<open>util_Free p\<close> does nothing for \<^verbatim>\<open>NULL\<close>, releases the block at \<open>p\<close>, and is undefined
  (\<open>None\<close>) when nothing is allocated there.
\<close>

definition util_Malloc ::
  "('l::len) StdinReader_state block \<Rightarrow> 'l world \<Rightarrow> addr \<times> 'l world" where
  "util_Malloc init w = (brk w, w\<lparr>heap := (heap w)(brk w \<mapsto> init), brk := Suc (brk w)\<rparr>)"

definition util_Calloc :: "nat \<Rightarrow> ('l::len) world \<Rightarrow> addr \<times> 'l world" where
  "util_Calloc n w = util_Malloc (CharBlock (replicate n (CHR 0x00))) w"

definition util_Free :: "addr option \<Rightarrow> ('l::len) world \<Rightarrow> 'l world option" where
  "util_Free p w =
     (case p of
        None \<Rightarrow> Some w
      | Some a \<Rightarrow>
          (if a \<in> dom (heap w) then Some (w\<lparr>heap := (heap w)(a := None)\<rparr>) else None))"

text \<open>
  \<^verbatim>\<open>createStdinReader()\<close>. \<open>junk\<close> is what the freshly allocated reader state holds.
  The steps are those of the source, in its order: allocate the state; allocate the
  generator and set its fields; allocate the name and copy \<^verbatim>\<open>"stdin"\<close> into it; reopen
  standard input in binary mode; set the index to \<^verbatim>\<open>BUFFER_LENGTH\<close>.
\<close>

definition createStdinReader ::
  "('l::len) StdinReader_state \<Rightarrow> 'l world \<Rightarrow> addr \<times> 'l world" where
  "createStdinReader junk w0 =
     (let (st, w1) = util_Malloc (StateBlock junk) w0;
          g = \<lparr>state = Some st, param = None, name = None,
               GetU01 = Fn_nextDouble, GetBits = Fn_nextInt, Write = Fn_dummy\<rparr>;
          (gen, w2) = util_Malloc (GenBlock g) w1;
          nm = ''stdin'';
          len = length nm;
          (p, w3) = util_Calloc (len + 1) w2;
          w4 = w3\<lparr>heap := (heap w3)
                 (gen \<mapsto> GenBlock (g\<lparr>name := Some p\<rparr>),
                  p \<mapsto> CharBlock (strncpy (replicate (len + 1) (CHR 0x00)) nm len))\<rparr>;
          w5 = w4\<lparr>stdin := freopen_rb (stdin w4)\<rparr>;
          w6 = w5\<lparr>heap := (heap w5)
                 (st \<mapsto> StateBlock (junk\<lparr>index := of_nat BUFFER_LENGTH\<rparr>))\<rparr>
      in (gen, w6))"

text \<open>
  \<^verbatim>\<open>deleteStdinReader(gen)\<close>: free the state, the name and the generator itself. The
  two \<^verbatim>\<open>NULL\<close>s that the source stores into the generator are gone with its block. The
  result is \<open>None\<close>, undefined behaviour, when \<open>gen\<close> does not point to a generator or a
  block to free is not allocated.
\<close>

definition deleteStdinReader :: "addr \<Rightarrow> ('l::len) world \<Rightarrow> 'l world option" where
  "deleteStdinReader gen w =
     (case heap w gen of
        Some (GenBlock g) \<Rightarrow>
          (case util_Free (state g) w of
             None \<Rightarrow> None
           | Some w1 \<Rightarrow>
               (case util_Free (name g) w1 of
                  None \<Rightarrow> None
                | Some w2 \<Rightarrow> util_Free (Some gen) w2))
      | _ \<Rightarrow> None)"

text \<open>
  The three batteries belong to TestU01 and are a parameter of \<open>main\<close>:
  \<open>bbattery s gen w\<close> is the world in which the battery \<open>s\<close>, called with the generator
  \<open>gen\<close> in the world \<open>w\<close>, returns, and \<open>None\<close> when it never returns.

  A run of the process ends in one of three ways: it exits with a status, after having
  called the listed batteries in that order, in some final world; a battery never
  returns; or its behaviour is undefined.
\<close>

datatype suite = SmallCrush | Crush | BigCrush

fun suite_name :: "suite \<Rightarrow> string" where
  "suite_name SmallCrush = TU_S"
| "suite_name Crush = TU_C"
| "suite_name BigCrush = TU_B"

datatype 'w outcome = Exit int "suite list" 'w | Hang | Undefined

text \<open>
  \<^verbatim>\<open>main(argc, argv)\<close>, with \<open>argc\<close> the length of \<open>argv\<close>. The source reads
  \<^verbatim>\<open>argv[1]\<close> before it tests \<open>argc\<close>; when \<open>argc < 2\<close> that value (the terminating
  \<^verbatim>\<open>NULL\<close> of \<open>argv\<close>) is not looked at, neither in the source nor here. The chain of
  tests either stops the process (\<^verbatim>\<open>exit(1)\<close>) or calls one battery; after the battery
  the generator is deleted and the process returns 0.
\<close>

definition main ::
  "(suite \<Rightarrow> addr \<Rightarrow> ('l::len) world \<Rightarrow> 'l world option) \<Rightarrow> 'l StdinReader_state \<Rightarrow>
   string list \<Rightarrow> 'l world \<Rightarrow> 'l world outcome" where
  "main bbattery junk argv w0 =
     (let argc = int (length argv);
          (gen, w) = createStdinReader junk w0;
          spec = argv ! 1
      in case (if argc < 2
               then Inl (Exit 1 [] (w\<lparr>stdout :=
                      printf ''[ERROR] Specify test suite: '%s', '%s' or '%s'\<newline>''
                        [TU_S, TU_C, TU_B] (stdout w)\<rparr>))
               else if strcmp spec TU_S = 0 then Inr (SmallCrush, bbattery SmallCrush gen w)
               else if strcmp spec TU_C = 0 then Inr (Crush, bbattery Crush gen w)
               else if strcmp spec TU_B = 0 then Inr (BigCrush, bbattery BigCrush gen w)
               else Inl (Exit 1 [] (w\<lparr>stdout :=
                      printf ''[ERROR] Unknown specification: '%s'\<newline>''
                        [spec] (stdout w)\<rparr>)))
         of Inl stopped \<Rightarrow> stopped
          | Inr (s, None) \<Rightarrow> Hang
          | Inr (s, Some w') \<Rightarrow>
              (case deleteStdinReader gen w' of
                 None \<Rightarrow> Undefined
               | Some w'' \<Rightarrow> Exit 0 [s] w''))"

text \<open>
  A stand-in for a battery, for running \<open>main\<close> on concrete arguments: it checks that it
  was handed a generator, writes the name of its suite and returns.
\<close>

definition stub_battery :: "suite \<Rightarrow> addr \<Rightarrow> ('l::len) world \<Rightarrow> 'l world option" where
  "stub_battery s gen w =
     (case heap w gen of
        Some (GenBlock g) \<Rightarrow> Some (w\<lparr>stdout := stdout w @ suite_name s\<rparr>)
      | _ \<Rightarrow> None)"

text \<open>
  The reader state that a generator points to: the object behind \<^verbatim>\<open>gen->state\<close>, when
  \<open>gen\<close> points to a generator and that pointer to a reader state.
\<close>

definition gen_state :: "addr \<Rightarrow> ('l::len) world \<Rightarrow> 'l StdinReader_state option" where
  "gen_state gen w =
     (case heap w gen of
        Some (GenBlock g) \<Rightarrow>
          (case state g of
             Some a \<Rightarrow> (case heap w a of Some (StateBlock s) \<Rightarrow> Some s | _ \<Rightarrow> None)
           | None \<Rightarrow> None)
      | _ \<Rightarrow> None)"

text \<open>
  The world in which a process starts that finds the bytes \<open>bs\<close> on its standard input:
  nothing is allocated, nothing is written, and the stream is not yet in binary mode.
\<close>

definition initial_world :: "byte list \<Rightarrow> ('l::len) world" where
  "initial_world bs =
     \<lparr>heap = Map.empty, brk = 0,
      stdin = \<lparr>bytes = bs, binary = False, freads = 0\<rparr>, stdout = []\<rparr>"

section \<open>Properties\<close>

subsection \<open>One call of \<open>nextInt\<close>\<close>

text \<open>The two branches of \<open>nextInt\<close>: the buffer still has an unread slot, or it is used up.\<close>

lemma nextInt_keep:
  "unat (index sta) < BUFFER_LENGTH \<Longrightarrow>
   nextInt e sta inp =
     (ucast (ucast (buffer sta ! unat (index sta)) :: uint32_t), sta\<lparr>index := index sta + 1\<rparr>, inp)"
  by (simp add: nextInt_def)

lemma nextInt_refill:
  "BUFFER_LENGTH \<le> unat (index sta) \<Longrightarrow>
   nextInt e (sta :: ('l::len) StdinReader_state) inp =
     (ucast (ucast (fst (fread e (buffer sta) (sizeof_ulong TYPE('l)) BUFFER_LENGTH inp) ! 0) :: uint32_t),
      sta\<lparr>buffer := fst (fread e (buffer sta) (sizeof_ulong TYPE('l)) BUFFER_LENGTH inp), index := 1\<rparr>,
      snd (fread e (buffer sta) (sizeof_ulong TYPE('l)) BUFFER_LENGTH inp))"
  by (simp add: nextInt_def split_beta)

lemma unat_narrow: "unat (ucast (ucast (x :: 'l::len word) :: uint32_t) :: 'l word) = unat x mod 2 ^ 32"
proof -
  have self: "take_bit LENGTH('l) (unat x) = unat x"
    by (simp add: take_bit_nat_eq_self_iff)
  have low: "unat (ucast x :: uint32_t) = take_bit 32 (unat x)"
    by (simp add: unsigned_ucast_eq)
  have "unat (ucast (ucast x :: uint32_t) :: 'l word) = take_bit LENGTH('l) (unat (ucast x :: uint32_t))"
    by (rule unsigned_ucast_eq)
  also have "\<dots> = take_bit LENGTH('l) (take_bit 32 (unat x))"
    by (simp only: low)
  also have "\<dots> = take_bit 32 (take_bit LENGTH('l) (unat x))"
    by (metis take_bit_take_bit min.commute)
  also have "\<dots> = take_bit 32 (unat x)"
    by (simp only: self)
  finally show ?thesis by (simp only: take_bit_eq_mod)
qed


lemma nextInt_lt: "unat (fst (nextInt e sta inp)) < 2 ^ 32"
  by (simp add: nextInt_def split_beta Let_def unat_narrow)

lemma nextInt_index:
  "unat (index (fst (snd (nextInt e sta inp)))) =
     (if BUFFER_LENGTH \<le> unat (index sta) then 1 else unat (index sta) + 1)"
  by (auto simp add: nextInt_keep nextInt_refill BUFFER_LENGTH_def unat_word_ariths)

lemma nextDouble_range: "0 \<le> fst (nextDouble e sta inp) \<and> fst (nextDouble e sta inp) < 1"
proof -
  have "real (unat (fst (nextInt e sta inp))) < real (2 ^ 32)"
    by (simp only: of_nat_less_iff nextInt_lt)
  moreover have "0 \<le> real (unat (fst (nextInt e sta inp)))"
    by (rule of_nat_0_le_iff)
  ultimately show ?thesis
    by (simp add: nextDouble_def split_beta)
qed


lemma nextInts_keep:
  "unat (index sta) + n \<le> BUFFER_LENGTH \<Longrightarrow>
   nextInts e n sta inp =
     (map (\<lambda>j. low32 (buffer sta ! j)) [unat (index sta) ..< unat (index sta) + n],
      sta\<lparr>index := index sta + of_nat n\<rparr>, inp)"
proof (induction n arbitrary: sta)
  case 0
  then show ?case by simp
next
  case (Suc n)
  let ?i = "unat (index sta)"
  let ?sta1 = "sta\<lparr>index := index sta + 1\<rparr>"
  from Suc.prems have lt: "?i < BUFFER_LENGTH" by simp
  have step: "unat (index ?sta1) = Suc ?i"
    using lt by (simp add: BUFFER_LENGTH_def unat_word_ariths)
  with Suc.prems have "unat (index ?sta1) + n \<le> BUFFER_LENGTH" by simp
  from Suc.IH [OF this] step lt show ?case
    by (simp add: nextInt_keep low32_def upt_conv_Cons add.assoc del: upt_Suc)
qed

lemma nextInts_add:
  "nextInts e (m + n) sta inp =
     (let (xs, sta1, inp1) = nextInts e m sta inp;
          (ys, sta2, inp2) = nextInts e n sta1 inp1
      in (xs @ ys, sta2, inp2))"
  by (induction m arbitrary: sta inp) (simp_all add: split_beta)

lemma nextInts_block:
  assumes "BUFFER_LENGTH \<le> unat (index sta)" and "n < BUFFER_LENGTH"
  shows "nextInts e (Suc n) (sta :: ('l::len) StdinReader_state) inp =
     (map (\<lambda>j. low32 (fst (fread e (buffer sta) (sizeof_ulong TYPE('l)) BUFFER_LENGTH inp) ! j)) [0 ..< Suc n],
      sta\<lparr>buffer := fst (fread e (buffer sta) (sizeof_ulong TYPE('l)) BUFFER_LENGTH inp),
          index := of_nat (Suc n)\<rparr>,
      snd (fread e (buffer sta) (sizeof_ulong TYPE('l)) BUFFER_LENGTH inp))"
proof -
  let ?buf = "fst (fread e (buffer sta) (sizeof_ulong TYPE('l)) BUFFER_LENGTH inp)"
  let ?sta1 = "sta\<lparr>buffer := ?buf, index := 1\<rparr>"
  have "unat (index ?sta1) + n \<le> BUFFER_LENGTH"
    using assms(2) by (simp add: BUFFER_LENGTH_def)
  from nextInts_keep [OF this] show ?thesis
    using assms(1) by (simp add: nextInt_refill low32_def upt_conv_Cons del: upt_Suc)
qed


lemma fread_freads: "freads (snd (fread e ptr sz nmemb fp)) = Suc (freads fp)"
  by (simp add: fread_def Let_def)

lemma fread_bytes: "bytes (snd (fread e ptr sz nmemb fp)) = drop (sz * nmemb) (bytes fp)"
  by (simp add: fread_def Let_def)

lemma length_chunks: "length (chunks sz n bs) = n"
  by (induction n arbitrary: bs) simp_all

lemma chunks_nth: "j < n \<Longrightarrow> chunks sz n bs ! j = take sz (drop (j * sz) bs)"
proof (induction n arbitrary: j bs)
  case 0
  then show ?case by simp
next
  case (Suc n)
  show ?case
  proof (cases j)
    case 0
    then show ?thesis by simp
  next
    case (Suc k)
    with Suc.prems have "k < n" by simp
    from Suc.IH [OF this] Suc show ?thesis by (simp add: add.commute)
  qed
qed

lemma chunks_add: "chunks sz (m + n) bs = chunks sz m bs @ chunks sz n (drop (m * sz) bs)"
  by (induction m arbitrary: bs) (simp_all add: add.commute)

lemma fread_nth:
  assumes "0 < sz" and "j < nmemb" and "Suc j * sz \<le> length (bytes fp)"
  shows "fst (fread e ptr sz nmemb fp) ! j = load e (take sz (drop (j * sz) (bytes fp)))"
proof -
  let ?got = "take (sz * nmemb) (bytes fp)"
  let ?n = "length ?got div sz"
  from assms(2) have "Suc j * sz \<le> nmemb * sz"
    by (intro mult_le_mono1) simp
  then have within: "Suc j * sz \<le> sz * nmemb"
    by (simp only: mult.commute [of sz])
  with assms(3) have "Suc j * sz \<le> length ?got" by simp
  then have "Suc j \<le> ?n"
    using assms(1) by (simp add: less_eq_div_iff_mult_less_eq)
  then have j: "j < ?n" by simp
  from within
  have inside: "take sz (drop (j * sz) ?got) = take sz (drop (j * sz) (bytes fp))"
    by (simp add: drop_take min_def)
  from j inside show ?thesis
    using assms(1) by (simp add: fread_def Let_def nth_append length_chunks chunks_nth)
qed

text \<open>\<open>store\<close> writes what \<open>load\<close> reads, when the object is wide enough for the value.\<close>

lemma le_value_le_bytes: "le_value (le_bytes k v) = v mod 256 ^ k"
proof (induction k arbitrary: v)
  case 0
  then show ?case by simp
next
  case (Suc k)
  have "unat (of_nat (v mod 256) :: byte) = v mod 256"
    by (simp add: unat_of_nat)
  with Suc show ?case
    by (simp add: mod_mult2_eq)
qed

lemma load_store:
  assumes "LENGTH('a::len) \<le> 8 * sz"
  shows "load e (store e sz (x :: 'a word)) = x"
proof -
  have "unat x < 2 ^ LENGTH('a)" by (rule unsigned_less)
  also have "(2::nat) ^ LENGTH('a) \<le> 2 ^ (8 * sz)"
    using assms by (simp add: power_increasing)
  also have "(2::nat) ^ (8 * sz) = 256 ^ sz"
    by (simp add: power_mult)
  finally have "unat x mod 256 ^ sz = unat x" by simp
  then show ?thesis
    by (cases e) (simp_all add: load_def store_def le_value_le_bytes)
qed

text \<open>
  A short read that ends inside an element: the bytes that arrived land in the slot, next
  to the bytes it held. Here \<^verbatim>\<open>unsigned long\<close> has 64 bits and four bytes arrive.
\<close>

lemma le_bytes_numeral:
  "le_bytes (numeral k) v = of_nat (v mod 256) # le_bytes (pred_numeral k) (v div 256)"
  by (simp only: numeral_eq_Suc [of k] le_bytes.simps)

lemma fread_partial_element:
  "fst (fread LittleEndian (0x1122334455667788 # replicate 255 (0 :: 64 word)) 8 256
          \<lparr>bytes = [7, 0, 0, 0], binary = True, freads = 0\<rparr>) =
     0x1122334400000007 # replicate 255 0"
  by (simp add: fread_def Let_def load_def store_def le_bytes_numeral)

lemma nextInts_freads:
  "BUFFER_LENGTH \<le> unat (index sta) \<Longrightarrow>
   freads (snd (snd (nextInts e n sta inp))) = freads inp + (n + 255) div 256"
proof (induction n arbitrary: sta inp rule: less_induct)
  case (less n)
  have "n = 0 \<or> (\<exists>k. n = Suc k \<and> k < 256) \<or> (\<exists>m. n = 256 + Suc m)"
    by presburger
  then consider "n = 0" | k where "n = Suc k" "k < BUFFER_LENGTH" | m where "n = BUFFER_LENGTH + Suc m"
    unfolding BUFFER_LENGTH_def by blast
  then show ?case
  proof cases
    case 1
    then show ?thesis by simp
  next
    case 2
    then show ?thesis
      using nextInts_block [OF less.prems 2(2), of e inp]
      by (simp add: fread_freads BUFFER_LENGTH_def del: nextInts.simps)
  next
    case 3
    have blk: "nextInts e BUFFER_LENGTH sta inp = nextInts e (Suc 255) sta inp"
      by (simp add: BUFFER_LENGTH_def)
    let ?r = "nextInts e (Suc 255) sta inp"
    have r: "unat (index (fst (snd ?r))) = BUFFER_LENGTH"
      "freads (snd (snd ?r)) = Suc (freads inp)"
      using nextInts_block [OF less.prems, of 255 e inp]
      by (simp_all add: fread_freads BUFFER_LENGTH_def del: nextInts.simps)
    have "Suc m < n" using 3 by (simp add: BUFFER_LENGTH_def)
    from less.IH [OF this, of "fst (snd ?r)" "snd (snd ?r)"] r
    have "freads (snd (snd (nextInts e (Suc m) (fst (snd ?r)) (snd (snd ?r))))) =
          Suc (freads inp) + (Suc m + 255) div 256"
      by simp
    then show ?thesis
      unfolding 3 nextInts_add blk
      by (simp add: split_beta BUFFER_LENGTH_def del: nextInts.simps)
  qed
qed


lemma nextInts_block_values:
  fixes sta :: "('l::len) StdinReader_state"
  assumes "BUFFER_LENGTH \<le> unat (index sta)" and "k < BUFFER_LENGTH"
    and "0 < sizeof_ulong TYPE('l)" and "Suc k * sizeof_ulong TYPE('l) \<le> length (bytes inp)"
  shows "fst (nextInts e (Suc k) sta inp) =
           map (\<lambda>c. low32 (load e c)) (chunks (sizeof_ulong TYPE('l)) (Suc k) (bytes inp))"
proof -
  let ?sz = "sizeof_ulong TYPE('l)"
  let ?buf = "fst (fread e (buffer sta) ?sz BUFFER_LENGTH inp)"
  have "map (\<lambda>j. low32 (?buf ! j)) [0 ..< Suc k] =
        map (\<lambda>c. low32 (load e c)) (chunks ?sz (Suc k) (bytes inp))"
  proof (rule nth_equalityI)
    show "length (map (\<lambda>j. low32 (?buf ! j)) [0 ..< Suc k]) =
          length (map (\<lambda>c. low32 (load e c)) (chunks ?sz (Suc k) (bytes inp)))"
      by (simp add: length_chunks)
  next
    fix j
    assume "j < length (map (\<lambda>j. low32 (?buf ! j)) [0 ..< Suc k])"
    then have j: "j < Suc k" by simp
    then have "Suc j * ?sz \<le> Suc k * ?sz" by (simp only: mult_le_mono1 Suc_leI)
    with assms(4) have "Suc j * ?sz \<le> length (bytes inp)" by linarith
    moreover from j assms(2) have "j < BUFFER_LENGTH" by simp
    ultimately have "?buf ! j = load e (take ?sz (drop (j * ?sz) (bytes inp)))"
      using assms(3) by (simp only: fread_nth)
    with j show "map (\<lambda>j. low32 (?buf ! j)) [0 ..< Suc k] ! j =
          map (\<lambda>c. low32 (load e c)) (chunks ?sz (Suc k) (bytes inp)) ! j"
      by (simp add: length_chunks chunks_nth nth_append del: upt_Suc chunks.simps)
  qed
  then show ?thesis
    by (simp only: nextInts_block [OF assms(1,2)] fst_conv)
qed

lemma nextInts_values:
  fixes sta :: "('l::len) StdinReader_state"
  assumes "BUFFER_LENGTH \<le> unat (index sta)" and "0 < sizeof_ulong TYPE('l)"
    and "n * sizeof_ulong TYPE('l) \<le> length (bytes inp)"
  shows "fst (nextInts e n sta inp) =
           map (\<lambda>c. low32 (load e c)) (chunks (sizeof_ulong TYPE('l)) n (bytes inp))"
  using assms
proof (induction n arbitrary: sta inp rule: less_induct)
  case (less n)
  let ?sz = "sizeof_ulong TYPE('l)"
  have "n = 0 \<or> (\<exists>k. n = Suc k \<and> k < 256) \<or> (\<exists>m. n = 256 + Suc m)"
    by presburger
  then consider "n = 0" | k where "n = Suc k" "k < BUFFER_LENGTH" | m where "n = BUFFER_LENGTH + Suc m"
    unfolding BUFFER_LENGTH_def by blast
  then show ?case
  proof cases
    case 1
    then show ?thesis by simp
  next
    case 2
    from less.prems(3) show ?thesis
      unfolding 2(1) by (rule nextInts_block_values [OF less.prems(1) 2(2) less.prems(2)])
  next
    case 3
    have blk: "BUFFER_LENGTH = Suc 255"
      by (simp add: BUFFER_LENGTH_def)
    let ?r = "nextInts e (Suc 255) sta inp"
    have "Suc 255 * ?sz \<le> n * ?sz"
      unfolding 3 blk by (rule mult_le_mono1) simp
    with less.prems(3) have full: "Suc 255 * ?sz \<le> length (bytes inp)"
      by linarith
    have "255 < BUFFER_LENGTH"
      by (simp add: BUFFER_LENGTH_def)
    then have first: "fst ?r = map (\<lambda>c. low32 (load e c)) (chunks ?sz (Suc 255) (bytes inp))"
      using less.prems(2) full by (rule nextInts_block_values [OF less.prems(1)])
    have r: "unat (index (fst (snd ?r))) = BUFFER_LENGTH"
      "bytes (snd (snd ?r)) = drop (?sz * BUFFER_LENGTH) (bytes inp)"
      using nextInts_block [OF less.prems(1), of 255 e inp]
      by (simp_all add: fread_bytes BUFFER_LENGTH_def del: nextInts.simps)
    have "Suc m < n" using 3 by (simp add: BUFFER_LENGTH_def)
    moreover have "BUFFER_LENGTH \<le> unat (index (fst (snd ?r)))" using r(1) by simp
    moreover have "Suc m * ?sz \<le> length (bytes (snd (snd ?r)))"
      using less.prems(3) unfolding 3 r(2) by (simp add: algebra_simps)
    ultimately have rest: "fst (nextInts e (Suc m) (fst (snd ?r)) (snd (snd ?r))) =
        map (\<lambda>c. low32 (load e c)) (chunks ?sz (Suc m) (drop (?sz * BUFFER_LENGTH) (bytes inp)))"
      using less.IH [of "Suc m" "fst (snd ?r)" "snd (snd ?r)"] less.prems(2) r(2) by simp
    show ?thesis
      unfolding 3 nextInts_add chunks_add
      using first rest
      by (simp add: split_beta blk mult.commute del: nextInts.simps chunks.simps)
  qed
qed

lemma take_chunks: "n \<le> m \<Longrightarrow> take n (chunks sz m bs) = chunks sz n bs"
proof -
  assume "n \<le> m"
  then obtain d where "m = n + d" by (auto simp add: le_iff_add)
  then show ?thesis by (simp add: chunks_add length_chunks)
qed

lemma low32_ulong32: "low32 (x :: 32 word) = x"
  by (simp add: low32_def)

subsection \<open>Creation, deletion and the branches of \<open>main\<close>\<close>

lemma createStdinReader_eq:
  "createStdinReader junk w0 =
     (Suc (brk w0),
      w0\<lparr>heap := (heap w0)
            (brk w0 \<mapsto> StateBlock (junk\<lparr>index := of_nat BUFFER_LENGTH\<rparr>),
             Suc (brk w0) \<mapsto> GenBlock \<lparr>state = Some (brk w0), param = None,
                name = Some (Suc (Suc (brk w0))),
                GetU01 = Fn_nextDouble, GetBits = Fn_nextInt, Write = Fn_dummy\<rparr>,
             Suc (Suc (brk w0)) \<mapsto> CharBlock (''stdin'' @ [CHR 0x00])),
          brk := Suc (Suc (Suc (brk w0))),
          stdin := (stdin w0)\<lparr>binary := True\<rparr>\<rparr>)"
  by (auto simp add: createStdinReader_def util_Malloc_def util_Calloc_def strncpy_def
      freopen_rb_def fun_eq_iff)

lemma gen_state_created:
  "gen_state (fst (createStdinReader junk w0)) (snd (createStdinReader junk w0)) =
     Some (junk\<lparr>index := of_nat BUFFER_LENGTH\<rparr>)"
  by (simp add: createStdinReader_eq gen_state_def)

lemma unat_capacity: "unat (of_nat BUFFER_LENGTH :: uint32_t) = BUFFER_LENGTH"
  by (simp add: BUFFER_LENGTH_def)

lemma strcmp_eq: "strcmp a b = 0 \<longleftrightarrow> a = b"
  by (induction a b rule: strcmp.induct) auto

lemma main_stops_without_suite:
  "length argv < 2 \<Longrightarrow>
   main bbattery junk argv w0 =
     Exit 1 [] ((snd (createStdinReader junk w0))\<lparr>stdout :=
        printf ''[ERROR] Specify test suite: '%s', '%s' or '%s'\<newline>''
          [TU_S, TU_C, TU_B] (stdout (snd (createStdinReader junk w0)))\<rparr>)"
  by (simp add: main_def split_beta)

lemma main_stops_on_unknown_suite:
  "2 \<le> length argv \<Longrightarrow> argv ! 1 \<noteq> TU_S \<Longrightarrow> argv ! 1 \<noteq> TU_C \<Longrightarrow> argv ! 1 \<noteq> TU_B \<Longrightarrow>
   main bbattery junk argv w0 =
     Exit 1 [] ((snd (createStdinReader junk w0))\<lparr>stdout :=
        printf ''[ERROR] Unknown specification: '%s'\<newline>''
          [argv ! 1] (stdout (snd (createStdinReader junk w0)))\<rparr>)"
  by (simp add: main_def split_beta strcmp_eq)

lemma createStdinReader_stdout: "stdout (snd (createStdinReader junk w0)) = stdout w0"
  by (simp add: createStdinReader_eq)

lemma main_calls_battery:
  "2 \<le> length argv \<Longrightarrow> argv ! 1 = suite_name s \<Longrightarrow>
   main bbattery junk argv w0 =
     (case bbattery s (fst (createStdinReader junk w0)) (snd (createStdinReader junk w0)) of
        None \<Rightarrow> Hang
      | Some w2 \<Rightarrow>
          (case deleteStdinReader (fst (createStdinReader junk w0)) w2 of
             None \<Rightarrow> Undefined
           | Some w3 \<Rightarrow> Exit 0 [s] w3))"
  by (cases s)
     (simp_all add: main_def split_beta TU_S_def TU_C_def TU_B_def strcmp_eq split: option.splits)

lemma deleteStdinReader_frees:
  "heap w gen = Some (GenBlock g) \<Longrightarrow> state g = Some a \<Longrightarrow> name g = Some n \<Longrightarrow>
   a \<in> dom (heap w) \<Longrightarrow> n \<in> dom (heap w) \<Longrightarrow> a \<noteq> n \<Longrightarrow> a \<noteq> gen \<Longrightarrow> n \<noteq> gen \<Longrightarrow>
   deleteStdinReader gen w = Some (w\<lparr>heap := (heap w)(a := None, n := None, gen := None)\<rparr>)"
  by (auto simp add: deleteStdinReader_def util_Free_def)

subsection \<open>The accessors\<close>

text \<open>
  Claim C8. The description callback writes the fixed text \<open>N/A\<close> to standard output and
  does nothing else: for every reader state, the buffer and the index are the same after
  the call as before.
\<close>

theorem dummy_prints_placeholder_only:
  "dummy sta out = (sta, out @ ''N/A'')"
  by (simp add: dummy_def printf_def)

text \<open>
  Claim C2. For every reader state, \<open>nextDouble\<close> returns the value of \<open>nextInt\<close> divided by
  \<open>2 ^ 32\<close> and leaves the state and the stream exactly as that one call of \<open>nextInt\<close>
  leaves them, so the index moves by one slot and not by two; the result lies in \<open>[0, 1)\<close>.
\<close>

theorem nextDouble_is_scaled_nextInt:
  "nextDouble e sta inp =
     (real (unat (fst (nextInt e sta inp))) / 2 ^ 32, snd (nextInt e sta inp)) \<and>
   unat (index (fst (snd (nextDouble e sta inp)))) =
     (if BUFFER_LENGTH \<le> unat (index sta) then 1 else unat (index sta) + 1) \<and>
   0 \<le> fst (nextDouble e sta inp) \<and> fst (nextDouble e sta inp) < 1"
proof -
  have "nextDouble e sta inp =
     (real (unat (fst (nextInt e sta inp))) / 2 ^ 32, snd (nextInt e sta inp))"
    by (simp add: nextDouble_def split_beta)
  moreover from this have "fst (snd (nextDouble e sta inp)) = fst (snd (nextInt e sta inp))"
    by simp
  ultimately show ?thesis
    using nextDouble_range [of e sta inp] nextInt_index [of e sta inp] by simp
qed

text \<open>
  Claim C9. Whatever the buffer holds, the value that \<open>nextInt\<close> returns is the selected
  buffer element modulo \<open>2 ^ 32\<close>, hence below \<open>2 ^ 32\<close>, which keeps \<open>nextDouble\<close> below 1;
  this although the elements and the result have the type \<^verbatim>\<open>unsigned long\<close> and a
  refill takes \<^verbatim>\<open>sizeof(unsigned long)\<close> bytes of the stream for each slot.
  The selected element is slot \<open>index\<close> of the buffer as it is before the call when the
  index is below \<^verbatim>\<open>BUFFER_LENGTH\<close>; the call then changes nothing but the index. Otherwise
  it is slot 0 of the buffer that \<^verbatim>\<open>fread\<close> delivers; the refill consumes
  \<^verbatim>\<open>BUFFER_LENGTH\<close> times \<^verbatim>\<open>sizeof(unsigned long)\<close> bytes, and slot \<open>j\<close> receives the
  bytes from offset \<open>j * sizeof(unsigned long)\<close> on when they all arrived.
\<close>

theorem nextInt_returns_low_32_bits:
  fixes sta :: "('l::len) StdinReader_state" and x :: "'l word"
  shows
  "unat (low32 x) = unat x mod 2 ^ 32 \<and>
   (unat (index sta) < BUFFER_LENGTH \<longrightarrow>
      nextInt e sta inp =
        (low32 (buffer sta ! unat (index sta)), sta\<lparr>index := index sta + 1\<rparr>, inp)) \<and>
   (BUFFER_LENGTH \<le> unat (index sta) \<longrightarrow>
      (let (buf, fp) = fread e (buffer sta) (sizeof_ulong TYPE('l)) BUFFER_LENGTH inp
       in nextInt e sta inp = (low32 (buf ! 0), sta\<lparr>buffer := buf, index := 1\<rparr>, fp))) \<and>
   unat (fst (nextInt e sta inp)) =
     unat (buffer (fst (snd (nextInt e sta inp))) !
             (if BUFFER_LENGTH \<le> unat (index sta) then 0 else unat (index sta))) mod 2 ^ 32 \<and>
   unat (fst (nextInt e sta inp)) < 2 ^ 32 \<and>
   fst (nextDouble e sta inp) < 1 \<and>
   (BUFFER_LENGTH \<le> unat (index sta) \<longrightarrow>
      bytes (snd (snd (nextInt e sta inp))) =
        drop (sizeof_ulong TYPE('l) * BUFFER_LENGTH) (bytes inp) \<and>
      (\<forall>j. 0 < sizeof_ulong TYPE('l) \<and> j < BUFFER_LENGTH \<and>
            Suc j * sizeof_ulong TYPE('l) \<le> length (bytes inp) \<longrightarrow>
         buffer (fst (snd (nextInt e sta inp))) ! j =
           load e (take (sizeof_ulong TYPE('l)) (drop (j * sizeof_ulong TYPE('l)) (bytes inp)))))"
proof (cases "BUFFER_LENGTH \<le> unat (index sta)")
  case True
  then show ?thesis
    using nextInt_lt [of e sta inp] nextDouble_range [of e sta inp]
    by (simp add: nextInt_refill unat_narrow fread_bytes fread_nth low32_def split_beta)
next
  case False
  then show ?thesis
    using nextInt_lt [of e sta inp] nextDouble_range [of e sta inp]
    by (simp add: nextInt_keep unat_narrow low32_def)
qed

text \<open>
  Two calls on a platform with a 64-bit \<^verbatim>\<open>unsigned long\<close>. Below capacity: the buffer
  holds \<open>0x1DEADBEEF\<close> and \<open>0x2CAFEF00D\<close> in its first two slots and the index is 1; the
  call returns \<open>0xCAFEF00D\<close>, moves the index to 2 and touches neither the buffer nor the
  stream. At capacity: the eight bytes \<open>EF BE AD DE 01 00 00 00\<close> fill slot 0 with
  \<open>0x1DEADBEEF\<close>, and the call returns \<open>0xDEADBEEF\<close>.
\<close>

theorem nextInt_returns_low_32_bits_witness:
  "unat (index (\<lparr>buffer = 0x1DEADBEEF # 0x2CAFEF00D # replicate 254 0, index = 1\<rparr>
                  :: 64 StdinReader_state)) < BUFFER_LENGTH \<and>
   nextInt LittleEndian
       (\<lparr>buffer = 0x1DEADBEEF # 0x2CAFEF00D # replicate 254 0, index = 1\<rparr> :: 64 StdinReader_state)
       \<lparr>bytes = [9, 9, 9, 9, 9, 9, 9, 9], binary = True, freads = 0\<rparr> =
     (0xCAFEF00D,
      \<lparr>buffer = 0x1DEADBEEF # 0x2CAFEF00D # replicate 254 0, index = 2\<rparr>,
      \<lparr>bytes = [9, 9, 9, 9, 9, 9, 9, 9], binary = True, freads = 0\<rparr>) \<and>
   BUFFER_LENGTH \<le> unat (index (\<lparr>buffer = replicate 256 0, index = 256\<rparr> :: 64 StdinReader_state)) \<and>
   0 < sizeof_ulong TYPE(64) \<and> 0 < BUFFER_LENGTH \<and>
   Suc 0 * sizeof_ulong TYPE(64) \<le>
     length (bytes \<lparr>bytes = [0xEF, 0xBE, 0xAD, 0xDE, 1, 0, 0, 0], binary = True, freads = 0\<rparr>) \<and>
   nextInt LittleEndian (\<lparr>buffer = replicate 256 0, index = 256\<rparr> :: 64 StdinReader_state)
       \<lparr>bytes = [0xEF, 0xBE, 0xAD, 0xDE, 1, 0, 0, 0], binary = True, freads = 0\<rparr> =
     (0xDEADBEEF,
      \<lparr>buffer = 0x1DEADBEEF # replicate 255 0, index = 1\<rparr>,
      \<lparr>bytes = [], binary = True, freads = 1\<rparr>)"
proof -
  have below: "nextInt LittleEndian
       (\<lparr>buffer = 0x1DEADBEEF # 0x2CAFEF00D # replicate 254 0, index = 1\<rparr> :: 64 StdinReader_state)
       \<lparr>bytes = [9, 9, 9, 9, 9, 9, 9, 9], binary = True, freads = 0\<rparr> =
     (0xCAFEF00D,
      \<lparr>buffer = 0x1DEADBEEF # 0x2CAFEF00D # replicate 254 0, index = 2\<rparr>,
      \<lparr>bytes = [9, 9, 9, 9, 9, 9, 9, 9], binary = True, freads = 0\<rparr>)"
    using nextInt_returns_low_32_bits [of _ 
      "\<lparr>buffer = 0x1DEADBEEF # 0x2CAFEF00D # replicate 254 0, index = 1\<rparr> :: 64 StdinReader_state"
      LittleEndian "\<lparr>bytes = [9, 9, 9, 9, 9, 9, 9, 9], binary = True, freads = 0\<rparr>"]
    by (simp add: BUFFER_LENGTH_def low32_def)
  have refill: "nextInt LittleEndian (\<lparr>buffer = replicate 256 0, index = 256\<rparr> :: 64 StdinReader_state)
       \<lparr>bytes = [0xEF, 0xBE, 0xAD, 0xDE, 1, 0, 0, 0], binary = True, freads = 0\<rparr> =
     (0xDEADBEEF,
      \<lparr>buffer = 0x1DEADBEEF # replicate 255 0, index = 1\<rparr>,
      \<lparr>bytes = [], binary = True, freads = 1\<rparr>)"
    using nextInt_returns_low_32_bits [of _ 
      "\<lparr>buffer = replicate 256 0, index = 256\<rparr> :: 64 StdinReader_state"
      LittleEndian "\<lparr>bytes = [0xEF, 0xBE, 0xAD, 0xDE, 1, 0, 0, 0], binary = True, freads = 0\<rparr>"]
    by (simp add: fread_def sizeof_ulong_def BUFFER_LENGTH_def load_def Let_def low32_def)
  from below refill show ?thesis
    by (simp add: sizeof_ulong_def BUFFER_LENGTH_def)
qed

subsection \<open>The cursor and the refills\<close>



text \<open>
  Claim C7. \<open>createStdinReader\<close> sets the index to \<^verbatim>\<open>BUFFER_LENGTH\<close>, so the first call
  of \<open>nextInt\<close> refills: it makes the first \<^verbatim>\<open>fread\<close>, stores what it delivers as the
  buffer and returns slot 0 of it. The first \<^verbatim>\<open>BUFFER_LENGTH\<close> calls after creation make
  exactly that one \<^verbatim>\<open>fread\<close> between them: they return the slots of that one buffer, in
  order, and leave the index at \<^verbatim>\<open>BUFFER_LENGTH\<close> again. The call after them makes the
  second \<^verbatim>\<open>fread\<close>, on the stream as the first one left it, replaces the buffer by what it
  delivers and returns slot 0 of the new buffer. In general the first \<open>n\<close> calls make
  \<open>\<lceil>n / BUFFER_LENGTH\<rceil>\<close> refills.
\<close>

theorem refills_after_creation:
  fixes junk :: "('l::len) StdinReader_state"
  shows
  "gen_state (fst (createStdinReader junk w0)) (snd (createStdinReader junk w0)) =
     Some (junk\<lparr>index := of_nat BUFFER_LENGTH\<rparr>) \<and>
   unat (index (junk\<lparr>index := of_nat BUFFER_LENGTH\<rparr>)) = BUFFER_LENGTH \<and>
   (let sta = junk\<lparr>index := of_nat BUFFER_LENGTH\<rparr>;
        (buf1, fp1) = fread e (buffer junk) (sizeof_ulong TYPE('l)) BUFFER_LENGTH inp;
        (buf2, fp2) = fread e buf1 (sizeof_ulong TYPE('l)) BUFFER_LENGTH fp1
    in nextInts e 1 sta inp =
         ([low32 (buf1 ! 0)], junk\<lparr>buffer := buf1, index := 1\<rparr>, fp1) \<and>
       nextInts e BUFFER_LENGTH sta inp =
         (map (\<lambda>j. low32 (buf1 ! j)) [0 ..< BUFFER_LENGTH],
          junk\<lparr>buffer := buf1, index := of_nat BUFFER_LENGTH\<rparr>, fp1) \<and>
       nextInts e (BUFFER_LENGTH + 1) sta inp =
         (map (\<lambda>j. low32 (buf1 ! j)) [0 ..< BUFFER_LENGTH] @ [low32 (buf2 ! 0)],
          junk\<lparr>buffer := buf2, index := 1\<rparr>, fp2) \<and>
       freads fp1 = freads inp + 1 \<and>
       freads fp2 = freads inp + 2 \<and>
       bytes fp1 = drop (sizeof_ulong TYPE('l) * BUFFER_LENGTH) (bytes inp)) \<and>
   freads (snd (snd (nextInts e 1 (junk\<lparr>index := of_nat BUFFER_LENGTH\<rparr>) inp))) =
     freads inp + 1 \<and>
   freads (snd (snd (nextInts e BUFFER_LENGTH (junk\<lparr>index := of_nat BUFFER_LENGTH\<rparr>) inp))) =
     freads inp + 1 \<and>
   unat (index (fst (snd (nextInts e BUFFER_LENGTH (junk\<lparr>index := of_nat BUFFER_LENGTH\<rparr>) inp)))) =
     BUFFER_LENGTH \<and>
   freads (snd (snd (nextInts e (BUFFER_LENGTH + 1) (junk\<lparr>index := of_nat BUFFER_LENGTH\<rparr>) inp))) =
     freads inp + 2 \<and>
   freads (snd (snd (nextInts e n (junk\<lparr>index := of_nat BUFFER_LENGTH\<rparr>) inp))) =
     freads inp + (n + (BUFFER_LENGTH - 1)) div BUFFER_LENGTH"
proof -
  let ?sz = "sizeof_ulong TYPE('l)"
  let ?sta = "junk\<lparr>index := of_nat BUFFER_LENGTH\<rparr>"
  let ?f1 = "fread e (buffer junk) ?sz BUFFER_LENGTH inp"
  let ?f2 = "fread e (fst ?f1) ?sz BUFFER_LENGTH (snd ?f1)"
  let ?vs = "map (\<lambda>j. low32 (fst ?f1 ! j)) [0 ..< BUFFER_LENGTH]"
  let ?full = "junk\<lparr>buffer := fst ?f1, index := of_nat BUFFER_LENGTH\<rparr>"
  have cap: "BUFFER_LENGTH \<le> unat (index ?sta)"
    by (simp add: unat_capacity)
  have blk: "BUFFER_LENGTH = Suc 255"
    by (simp add: BUFFER_LENGTH_def)
  have one: "nextInts e 1 ?sta inp =
      ([low32 (fst ?f1 ! 0)], junk\<lparr>buffer := fst ?f1, index := 1\<rparr>, snd ?f1)"
    using cap by (simp add: nextInt_refill low32_def)
  have "255 < BUFFER_LENGTH"
    by (simp add: BUFFER_LENGTH_def)
  from nextInts_block [OF cap this, of e inp]
  have whole: "nextInts e BUFFER_LENGTH ?sta inp = (?vs, ?full, snd ?f1)"
    by (simp only: blk [symmetric] StdinReader_state.simps
        StdinReader_state.update_convs StdinReader_state.surjective)
       (simp del: nextInts.simps)
  have "BUFFER_LENGTH \<le> unat (index ?full)"
    by (simp add: unat_capacity)
  then have after: "nextInts e 1 ?full (snd ?f1) =
      ([low32 (fst ?f2 ! 0)], junk\<lparr>buffer := fst ?f2, index := 1\<rparr>, snd ?f2)"
    by (simp add: nextInt_refill low32_def)
  have more: "nextInts e (BUFFER_LENGTH + 1) ?sta inp =
      (?vs @ [low32 (fst ?f2 ! 0)], junk\<lparr>buffer := fst ?f2, index := 1\<rparr>, snd ?f2)"
    by (simp only: nextInts_add whole after Let_def split_conv append.simps)
  have reads: "freads (snd ?f1) = freads inp + 1" "freads (snd ?f2) = freads inp + 2"
    "bytes (snd ?f1) = drop (?sz * BUFFER_LENGTH) (bytes inp)"
    by (simp_all add: fread_freads fread_bytes)
  have count: "freads (snd (snd (nextInts e k ?sta inp))) = freads inp + (k + 255) div 256" for k
    using cap by (rule nextInts_freads)
  have any: "freads (snd (snd (nextInts e n ?sta inp))) =
      freads inp + (n + (BUFFER_LENGTH - 1)) div BUFFER_LENGTH"
    unfolding count by (simp add: BUFFER_LENGTH_def)
  have idx: "unat (index ?sta) = BUFFER_LENGTH"
    by (simp add: unat_capacity)
  have full: "unat (index ?full) = BUFFER_LENGTH"
    by (simp add: unat_capacity)
  from gen_state_created [of junk w0] idx one whole more reads any full
  show ?thesis
    by (simp only: Let_def split_beta fst_conv snd_conv simp_thms)
qed

subsection \<open>The values that the consumer receives\<close>

text \<open>
  On a platform whose \<^verbatim>\<open>unsigned long\<close> has 32 bits, the calls of \<open>nextInt\<close> after
  creation return the 32-bit words of the stream, in order, as long as complete words are
  left; where the refills fall does not show.
\<close>

lemma nextInts_returns_stream_words_ulong32:
  fixes sta :: "32 StdinReader_state"
  assumes "BUFFER_LENGTH \<le> unat (index sta)" and "n \<le> length (bytes inp) div 4"
  shows "fst (nextInts e n sta inp) = take n (words32 e (bytes inp))"
proof -
  have sz: "sizeof_ulong TYPE(32) = 4" by (simp add: sizeof_ulong_def)
  from assms(2) have "n * sizeof_ulong TYPE(32) \<le> length (bytes inp)"
    unfolding sz by simp
  from nextInts_values [OF assms(1) _ this, of e] show ?thesis
    using assms(2) by (simp add: sz low32_ulong32 words32_def take_map take_chunks)
qed

text \<open>
  Claim C1 asks for the same on every platform: repeated calls of \<open>nextInt\<close> return
  exactly the 32-bit words of the stream, in stream order. The header of the source file
  says so too (it \<^emph>\<open>reads from its standard input an infinite sequence of 32-bits
  integers\<close>). The code does not do it where \<^verbatim>\<open>unsigned long\<close> has 64 bits: a refill
  takes eight bytes for each slot and the narrowing keeps four of them, so every second
  word of the stream is lost. Here the stream holds the words 1, 2, 3, 4 (little-endian)
  and the first two calls after creation return 1 and 3.
\<close>

theorem nextInts_drops_words_when_ulong_is_64_bits:
  "words32 LittleEndian [1,0,0,0, 2,0,0,0, 3,0,0,0, 4,0,0,0] = [1, 2, 3, 4] \<and>
   fst (nextInts LittleEndian 2
        (\<lparr>buffer = replicate 256 0, index = of_nat BUFFER_LENGTH\<rparr> :: 64 StdinReader_state)
        \<lparr>bytes = [1,0,0,0, 2,0,0,0, 3,0,0,0, 4,0,0,0], binary = True, freads = 0\<rparr>) = [1, 3]"
proof -
  let ?bs = "[1,0,0,0, 2,0,0,0, 3,0,0,0, 4,0,0,0] :: byte list"
  let ?sta = "\<lparr>buffer = replicate 256 0, index = of_nat BUFFER_LENGTH\<rparr> :: 64 StdinReader_state"
  let ?inp = "\<lparr>bytes = ?bs, binary = True, freads = 0\<rparr>"
  have "fst (nextInts LittleEndian (Suc (Suc 0)) ?sta ?inp) =
        map (\<lambda>c. low32 (load LittleEndian c))
          (chunks (sizeof_ulong TYPE(64)) (Suc (Suc 0)) (bytes ?inp))"
    by (rule nextInts_values) (simp_all add: BUFFER_LENGTH_def sizeof_ulong_def)
  also have "\<dots> = [1, 3]"
    by (simp add: sizeof_ulong_def low32_def load_def)
  finally have "fst (nextInts LittleEndian 2 ?sta ?inp) = [1, 3]"
    by (simp only: numeral_2_eq_2)
  moreover have "words32 LittleEndian ?bs = [1, 2, 3, 4]"
    by code_simp
  ultimately show ?thesis by (simp only: simp_thms)
qed

subsection \<open>The dispatch in \<open>main\<close>\<close>

text \<open>
  Claim C3. When \<open>argv[1]\<close> is exactly \<open>SmallCrush\<close>, \<open>Crush\<close> or \<open>BigCrush\<close>, \<open>main\<close>
  calls the battery of that name, and no other, with the generator that
  \<open>createStdinReader\<close> returned and in the world it left; when the battery returns, \<open>main\<close>
  deletes the generator and the process ends with status 0. If the battery left the
  generator block as it was and the state and the name allocated, the deletion is defined
  and releases the three blocks.
\<close>

theorem main_runs_selected_battery:
  assumes "2 \<le> length argv"
    and "argv ! 1 = ''SmallCrush'' \<and> s = SmallCrush \<or>
         argv ! 1 = ''Crush'' \<and> s = Crush \<or>
         argv ! 1 = ''BigCrush'' \<and> s = BigCrush"
    and "bbattery s (fst (createStdinReader junk w0)) (snd (createStdinReader junk w0)) = Some w2"
  shows "main bbattery junk argv w0 =
           (case deleteStdinReader (fst (createStdinReader junk w0)) w2 of
              None \<Rightarrow> Undefined
            | Some w3 \<Rightarrow> Exit 0 [s] w3) \<and>
         (heap w2 (fst (createStdinReader junk w0)) =
            heap (snd (createStdinReader junk w0)) (fst (createStdinReader junk w0)) \<and>
          brk w0 \<in> dom (heap w2) \<and> Suc (Suc (brk w0)) \<in> dom (heap w2) \<longrightarrow>
          main bbattery junk argv w0 =
            Exit 0 [s] (w2\<lparr>heap := (heap w2)
               (brk w0 := None, Suc (Suc (brk w0)) := None, Suc (brk w0) := None)\<rparr>))"
proof -
  from assms(2) have nm: "argv ! 1 = suite_name s"
    by (auto simp add: TU_S_def TU_C_def TU_B_def)
  have run: "main bbattery junk argv w0 =
           (case deleteStdinReader (fst (createStdinReader junk w0)) w2 of
              None \<Rightarrow> Undefined
            | Some w3 \<Rightarrow> Exit 0 [s] w3)"
    by (simp add: main_calls_battery [OF assms(1) nm] assms(3))
  have "deleteStdinReader (fst (createStdinReader junk w0)) w2 =
          Some (w2\<lparr>heap := (heap w2)
               (brk w0 := None, Suc (Suc (brk w0)) := None, Suc (brk w0) := None)\<rparr>)"
    if kept: "heap w2 (fst (createStdinReader junk w0)) =
            heap (snd (createStdinReader junk w0)) (fst (createStdinReader junk w0))"
      and st: "brk w0 \<in> dom (heap w2)" and nm: "Suc (Suc (brk w0)) \<in> dom (heap w2)"
  proof -
    from kept have g: "heap w2 (Suc (brk w0)) =
        Some (GenBlock \<lparr>state = Some (brk w0), param = None, name = Some (Suc (Suc (brk w0))),
                GetU01 = Fn_nextDouble, GetBits = Fn_nextInt, Write = Fn_dummy\<rparr>)"
      by (simp add: createStdinReader_eq)
    from deleteStdinReader_frees [OF g _ _ st nm] show ?thesis
      by (simp add: createStdinReader_eq)
  qed
  with run show ?thesis by simp
qed

text \<open>
  A run with the argument \<open>Crush\<close> and the stand-in battery: status 0, \<open>Crush\<close> the only
  battery called, nothing left allocated.
\<close>

theorem main_runs_selected_battery_witness:
  "2 \<le> length [''stdin2testu01'', ''Crush''] \<and>
   [''stdin2testu01'', ''Crush''] ! 1 = ''Crush'' \<and>
   stub_battery Crush
       (fst (createStdinReader (\<lparr>buffer = replicate 256 0, index = 0\<rparr> :: 64 StdinReader_state)
              (initial_world [1, 2, 3])))
       (snd (createStdinReader (\<lparr>buffer = replicate 256 0, index = 0\<rparr> :: 64 StdinReader_state)
              (initial_world [1, 2, 3]))) =
     Some ((snd (createStdinReader (\<lparr>buffer = replicate 256 0, index = 0\<rparr> :: 64 StdinReader_state)
              (initial_world [1, 2, 3])))\<lparr>stdout := ''Crush''\<rparr>) \<and>
   main stub_battery (\<lparr>buffer = replicate 256 0, index = 0\<rparr> :: 64 StdinReader_state)
       [''stdin2testu01'', ''Crush''] (initial_world [1, 2, 3]) =
     Exit 0 [Crush]
       \<lparr>heap = Map.empty, brk = 3,
        stdin = \<lparr>bytes = [1, 2, 3], binary = True, freads = 0\<rparr>, stdout = ''Crush''\<rparr>"
proof -
  let ?junk = "\<lparr>buffer = replicate 256 0, index = 0\<rparr> :: 64 StdinReader_state"
  let ?w0 = "initial_world [1, 2, 3] :: 64 world"
  let ?c = "createStdinReader ?junk ?w0"
  have ran: "stub_battery Crush (fst ?c) (snd ?c) = Some ((snd ?c)\<lparr>stdout := ''Crush''\<rparr>)"
    by (simp add: createStdinReader_eq stub_battery_def initial_world_def TU_C_def)
  from main_runs_selected_battery [of "[''stdin2testu01'', ''Crush'']" Crush stub_battery, OF _ _ ran]
  have "main stub_battery ?junk [''stdin2testu01'', ''Crush''] ?w0 =
     Exit 0 [Crush]
       \<lparr>heap = Map.empty, brk = 3,
        stdin = \<lparr>bytes = [1, 2, 3], binary = True, freads = 0\<rparr>, stdout = ''Crush''\<rparr>"
    by (simp add: createStdinReader_eq initial_world_def fun_eq_iff deleteStdinReader_def
        util_Free_def numeral_3_eq_3)
  with ran show ?thesis
    by simp
qed

text \<open>
  Claim C4. With fewer than two arguments (\<open>argc < 2\<close>) the process writes the usage
  message, which names \<open>SmallCrush\<close>, \<open>Crush\<close> and \<open>BigCrush\<close>, to standard output, ends
  with status 1 and calls no battery.
\<close>

theorem main_without_suite_prints_usage:
  assumes "length argv < 2"
  shows "main bbattery junk argv w0 =
     Exit 1 [] ((snd (createStdinReader junk w0))\<lparr>stdout := stdout w0 @
        ''[ERROR] Specify test suite: '' @ [CHR 0x27] @ ''SmallCrush'' @ [CHR 0x27] @ '', '' @
        [CHR 0x27] @ ''Crush'' @ [CHR 0x27] @ '' or '' @ [CHR 0x27] @ ''BigCrush'' @
        [CHR 0x27, CHR ''\<newline>'']\<rparr>)"
proof -
  have "printf ''[ERROR] Specify test suite: '%s', '%s' or '%s'\<newline>''
          [TU_S, TU_C, TU_B] (stdout w0) =
        stdout w0 @
        ''[ERROR] Specify test suite: '' @ [CHR 0x27] @ ''SmallCrush'' @ [CHR 0x27] @ '', '' @
        [CHR 0x27] @ ''Crush'' @ [CHR 0x27] @ '' or '' @ [CHR 0x27] @ ''BigCrush'' @
        [CHR 0x27, CHR ''\<newline>'']"
    by (simp add: printf_def TU_S_def TU_C_def TU_B_def)
  with main_stops_without_suite [OF assms, of bbattery junk w0] show ?thesis
    by (simp only: createStdinReader_stdout)
qed

text \<open>
  A run without a suite argument: the three blocks of the reader are allocated, standard
  input is in binary mode, and the usage message is all the output.
\<close>

theorem main_without_suite_prints_usage_witness:
  "length [''stdin2testu01''] < 2 \<and>
   main stub_battery (\<lparr>buffer = replicate 256 0, index = 0\<rparr> :: 64 StdinReader_state)
       [''stdin2testu01''] (initial_world [1, 2, 3]) =
     Exit 1 []
       \<lparr>heap = [0 \<mapsto> StateBlock \<lparr>buffer = replicate 256 0, index = 256\<rparr>,
                1 \<mapsto> GenBlock \<lparr>state = Some 0, param = None, name = Some 2,
                       GetU01 = Fn_nextDouble, GetBits = Fn_nextInt, Write = Fn_dummy\<rparr>,
                2 \<mapsto> CharBlock (''stdin'' @ [CHR 0x00])],
        brk = 3,
        stdin = \<lparr>bytes = [1, 2, 3], binary = True, freads = 0\<rparr>,
        stdout = ''[ERROR] Specify test suite: '' @ [CHR 0x27] @ ''SmallCrush'' @ [CHR 0x27] @
          '', '' @ [CHR 0x27] @ ''Crush'' @ [CHR 0x27] @ '' or '' @ [CHR 0x27] @ ''BigCrush'' @
          [CHR 0x27, CHR ''\<newline>'']\<rparr>"
  using main_without_suite_prints_usage [of "[''stdin2testu01'']" stub_battery
      "\<lparr>buffer = replicate 256 0, index = 0\<rparr> :: 64 StdinReader_state" "initial_world [1, 2, 3]"]
  by (simp add: createStdinReader_eq initial_world_def BUFFER_LENGTH_def fun_eq_iff)

text \<open>
  Claim C5. When \<open>argv[1]\<close> is none of the three names (a difference in case is enough),
  the process writes the \<open>Unknown specification\<close> message, which quotes \<open>argv[1]\<close> as it
  is, ends with status 1 and calls no battery.
\<close>

theorem main_rejects_unknown_suite:
  assumes "2 \<le> length argv" and "argv ! 1 \<notin> {''SmallCrush'', ''Crush'', ''BigCrush''}"
  shows "main bbattery junk argv w0 =
     Exit 1 [] ((snd (createStdinReader junk w0))\<lparr>stdout := stdout w0 @
        ''[ERROR] Unknown specification: '' @ [CHR 0x27] @ argv ! 1 @
        [CHR 0x27, CHR ''\<newline>'']\<rparr>)"
proof -
  from assms(2) have other: "argv ! 1 \<noteq> TU_S" "argv ! 1 \<noteq> TU_C" "argv ! 1 \<noteq> TU_B"
    by (simp_all add: TU_S_def TU_C_def TU_B_def)
  have "printf ''[ERROR] Unknown specification: '%s'\<newline>'' [argv ! 1] (stdout w0) =
        stdout w0 @ ''[ERROR] Unknown specification: '' @ [CHR 0x27] @ argv ! 1 @
        [CHR 0x27, CHR ''\<newline>'']"
    by (simp add: printf_def)
  with main_stops_on_unknown_suite [OF assms(1) other, of bbattery junk w0] show ?thesis
    by (simp only: createStdinReader_stdout)
qed

text \<open>
  A run with the argument \<open>bigcrush\<close>.
\<close>

theorem main_rejects_unknown_suite_witness:
  "2 \<le> length [''stdin2testu01'', ''bigcrush''] \<and>
   [''stdin2testu01'', ''bigcrush''] ! 1 \<notin> {''SmallCrush'', ''Crush'', ''BigCrush''} \<and>
   (case main stub_battery (\<lparr>buffer = replicate 256 0, index = 0\<rparr> :: 64 StdinReader_state)
       [''stdin2testu01'', ''bigcrush''] (initial_world [1, 2, 3]) of
      Exit n called w \<Rightarrow> n = 1 \<and> called = [] \<and>
        stdout w = ''[ERROR] Unknown specification: '' @ [CHR 0x27] @ ''bigcrush'' @
          [CHR 0x27, CHR ''\<newline>'']
    | _ \<Rightarrow> False)"
  using main_rejects_unknown_suite [of "[''stdin2testu01'', ''bigcrush'']" stub_battery
      "\<lparr>buffer = replicate 256 0, index = 0\<rparr> :: 64 StdinReader_state" "initial_world [1, 2, 3]"]
  by (simp add: initial_world_def)

text \<open>
  Claim C10. \<open>main\<close> creates the generator before it looks at its arguments: the world
  after \<open>createStdinReader\<close> holds the reader state, the generator and its name, and
  standard input is in binary mode, whatever \<open>argv\<close> is. On both error exits (no suite
  argument, unknown suite name) the process ends in that world, with only the message
  added to the output: nothing was released. Only after a battery has returned is
  \<open>deleteStdinReader\<close> applied.
\<close>

theorem adapter_created_first_and_deleted_only_after_battery:
  "createStdinReader junk w0 =
     (Suc (brk w0),
      w0\<lparr>heap := (heap w0)
            (brk w0 \<mapsto> StateBlock (junk\<lparr>index := of_nat BUFFER_LENGTH\<rparr>),
             Suc (brk w0) \<mapsto> GenBlock \<lparr>state = Some (brk w0), param = None,
                name = Some (Suc (Suc (brk w0))),
                GetU01 = Fn_nextDouble, GetBits = Fn_nextInt, Write = Fn_dummy\<rparr>,
             Suc (Suc (brk w0)) \<mapsto> CharBlock (''stdin'' @ [CHR 0x00])),
          brk := Suc (Suc (Suc (brk w0))),
          stdin := (stdin w0)\<lparr>binary := True\<rparr>\<rparr>) \<and>
   (length argv < 2 \<or>
    2 \<le> length argv \<and> argv ! 1 \<notin> {''SmallCrush'', ''Crush'', ''BigCrush''} \<longrightarrow>
      (case main bbattery junk argv w0 of
         Exit n called w \<Rightarrow>
           n = 1 \<and> called = [] \<and>
           heap w = heap (snd (createStdinReader junk w0)) \<and>
           brk w = brk (snd (createStdinReader junk w0)) \<and>
           stdin w = stdin (snd (createStdinReader junk w0))
       | _ \<Rightarrow> False)) \<and>
   (2 \<le> length argv \<and> argv ! 1 = suite_name s \<and>
    bbattery s (fst (createStdinReader junk w0)) (snd (createStdinReader junk w0)) = Some w2 \<longrightarrow>
      main bbattery junk argv w0 =
        (case deleteStdinReader (fst (createStdinReader junk w0)) w2 of
           None \<Rightarrow> Undefined
         | Some w3 \<Rightarrow> Exit 0 [s] w3))"
proof (intro conjI impI)
  show "createStdinReader junk w0 =
     (Suc (brk w0),
      w0\<lparr>heap := (heap w0)
            (brk w0 \<mapsto> StateBlock (junk\<lparr>index := of_nat BUFFER_LENGTH\<rparr>),
             Suc (brk w0) \<mapsto> GenBlock \<lparr>state = Some (brk w0), param = None,
                name = Some (Suc (Suc (brk w0))),
                GetU01 = Fn_nextDouble, GetBits = Fn_nextInt, Write = Fn_dummy\<rparr>,
             Suc (Suc (brk w0)) \<mapsto> CharBlock (''stdin'' @ [CHR 0x00])),
          brk := Suc (Suc (Suc (brk w0))),
          stdin := (stdin w0)\<lparr>binary := True\<rparr>\<rparr>)"
    by (rule createStdinReader_eq)
next
  assume "length argv < 2 \<or>
    2 \<le> length argv \<and> argv ! 1 \<notin> {''SmallCrush'', ''Crush'', ''BigCrush''}"
  then show "case main bbattery junk argv w0 of
         Exit n called w \<Rightarrow>
           n = 1 \<and> called = [] \<and>
           heap w = heap (snd (createStdinReader junk w0)) \<and>
           brk w = brk (snd (createStdinReader junk w0)) \<and>
           stdin w = stdin (snd (createStdinReader junk w0))
       | _ \<Rightarrow> False"
  proof
    assume "length argv < 2"
    then show ?thesis by (simp add: main_stops_without_suite)
  next
    assume "2 \<le> length argv \<and> argv ! 1 \<notin> {''SmallCrush'', ''Crush'', ''BigCrush''}"
    then show ?thesis
      by (simp add: main_stops_on_unknown_suite TU_S_def TU_C_def TU_B_def)
  qed
next
  assume "2 \<le> length argv \<and> argv ! 1 = suite_name s \<and>
    bbattery s (fst (createStdinReader junk w0)) (snd (createStdinReader junk w0)) = Some w2"
  then show "main bbattery junk argv w0 =
        (case deleteStdinReader (fst (createStdinReader junk w0)) w2 of
           None \<Rightarrow> Undefined
         | Some w3 \<Rightarrow> Exit 0 [s] w3)"
    by (simp add: main_calls_battery)
qed

text \<open>
  Three runs: without a suite and with the unknown suite \<open>crush\<close> the three blocks are
  still allocated at exit; with \<open>BigCrush\<close> none is.
\<close>

theorem adapter_created_first_and_deleted_only_after_battery_witness:
  "length [''stdin2testu01''] < 2 \<and>
   (case main stub_battery (\<lparr>buffer = replicate 256 0, index = 0\<rparr> :: 64 StdinReader_state)
           [''stdin2testu01''] (initial_world []) of
      Exit n called w \<Rightarrow> n = 1 \<and> called = [] \<and> dom (heap w) = {0, 1, 2} \<and> binary (stdin w)
    | _ \<Rightarrow> False) \<and>
   2 \<le> length [''stdin2testu01'', ''crush''] \<and>
   [''stdin2testu01'', ''crush''] ! 1 \<notin> {''SmallCrush'', ''Crush'', ''BigCrush''} \<and>
   (case main stub_battery (\<lparr>buffer = replicate 256 0, index = 0\<rparr> :: 64 StdinReader_state)
           [''stdin2testu01'', ''crush''] (initial_world []) of
      Exit n called w \<Rightarrow> n = 1 \<and> called = [] \<and> dom (heap w) = {0, 1, 2} \<and> binary (stdin w)
    | _ \<Rightarrow> False) \<and>
   [''stdin2testu01'', ''BigCrush''] ! 1 = suite_name BigCrush \<and>
   (case main stub_battery (\<lparr>buffer = replicate 256 0, index = 0\<rparr> :: 64 StdinReader_state)
           [''stdin2testu01'', ''BigCrush''] (initial_world []) of
      Exit n called w \<Rightarrow> n = 0 \<and> called = [BigCrush] \<and> dom (heap w) = {} \<and> binary (stdin w)
    | _ \<Rightarrow> False)"
proof -
  let ?junk = "\<lparr>buffer = replicate 256 0, index = 0\<rparr> :: 64 StdinReader_state"
  let ?w0 = "initial_world [] :: 64 world"
  let ?c = "createStdinReader ?junk ?w0"
  note inst = adapter_created_first_and_deleted_only_after_battery
    [where junk = ?junk and ?w0.0 = ?w0 and bbattery = stub_battery]
  have created: "dom (heap (snd ?c)) = {0, 1, 2} \<and> binary (stdin (snd ?c))"
    by (auto simp add: createStdinReader_eq initial_world_def)
  have "case main stub_battery ?junk [''stdin2testu01''] ?w0 of
      Exit n called w \<Rightarrow> n = 1 \<and> called = [] \<and> heap w = heap (snd ?c) \<and>
        brk w = brk (snd ?c) \<and> stdin w = stdin (snd ?c)
    | _ \<Rightarrow> False"
    using inst [where argv = "[''stdin2testu01'']"] by simp
  with created have missing: "case main stub_battery ?junk [''stdin2testu01''] ?w0 of
      Exit n called w \<Rightarrow> n = 1 \<and> called = [] \<and> dom (heap w) = {0, 1, 2} \<and> binary (stdin w)
    | _ \<Rightarrow> False"
    by (cases "main stub_battery ?junk [''stdin2testu01''] ?w0") simp_all
  have "case main stub_battery ?junk [''stdin2testu01'', ''crush''] ?w0 of
      Exit n called w \<Rightarrow> n = 1 \<and> called = [] \<and> heap w = heap (snd ?c) \<and>
        brk w = brk (snd ?c) \<and> stdin w = stdin (snd ?c)
    | _ \<Rightarrow> False"
    using inst [where argv = "[''stdin2testu01'', ''crush'']"] by simp
  with created have unknown: "case main stub_battery ?junk [''stdin2testu01'', ''crush''] ?w0 of
      Exit n called w \<Rightarrow> n = 1 \<and> called = [] \<and> dom (heap w) = {0, 1, 2} \<and> binary (stdin w)
    | _ \<Rightarrow> False"
    by (cases "main stub_battery ?junk [''stdin2testu01'', ''crush''] ?w0") simp_all
  have ran: "stub_battery BigCrush (fst ?c) (snd ?c) = Some ((snd ?c)\<lparr>stdout := ''BigCrush''\<rparr>)"
    by (simp add: createStdinReader_eq stub_battery_def initial_world_def TU_B_def)
  have "main stub_battery ?junk [''stdin2testu01'', ''BigCrush''] ?w0 =
      (case deleteStdinReader (fst ?c) ((snd ?c)\<lparr>stdout := ''BigCrush''\<rparr>) of
         None \<Rightarrow> Undefined
       | Some w3 \<Rightarrow> Exit 0 [BigCrush] w3)"
    using inst [where argv = "[''stdin2testu01'', ''BigCrush'']" and s = BigCrush
        and ?w2.0 = "(snd ?c)\<lparr>stdout := ''BigCrush''\<rparr>"] ran
    by (simp add: TU_B_def)
  then have success: "case main stub_battery ?junk [''stdin2testu01'', ''BigCrush''] ?w0 of
      Exit n called w \<Rightarrow> n = 0 \<and> called = [BigCrush] \<and> dom (heap w) = {} \<and> binary (stdin w)
    | _ \<Rightarrow> False"
    by (simp add: createStdinReader_eq initial_world_def deleteStdinReader_def util_Free_def)
  from missing unknown success show ?thesis
    by (simp add: TU_B_def)
qed

end
